theory Spec2Isabelle
  imports Complex_Main
begin

unbundle bit_operations_syntax

section \<open>JavaScript numbers\<close>

text \<open>
  The program is JavaScript: every value it computes with is a Number. The model keeps the
  special values of a Number (\<open>NaN\<close>, \<open>+Infinity\<close>, \<open>-Infinity\<close>) and the rules by which the
  operators and the \<open>Math\<close> functions produce and propagate them, and takes a finite Number
  to be a real: finite arithmetic is exact (no rounding to 53 bits, no overflow, no negative
  zero), and \<open>Math.log\<close>, \<open>Math.tan\<close>, \<open>Math.cos\<close>, \<open>Math.exp\<close>, \<open>Math.atan\<close> and \<open>Math.PI\<close>
  are the mathematical functions and constant.
\<close>

datatype number = NaN | NInf | Fin real | PInf

instantiation number :: "{plus, minus, times, divide, ord}"
begin

fun plus_number :: "number \<Rightarrow> number \<Rightarrow> number" where
  "plus_number NaN b = NaN"
| "plus_number a NaN = NaN"
| "plus_number (Fin a) (Fin b) = Fin (a + b)"
| "plus_number PInf NInf = NaN"
| "plus_number NInf PInf = NaN"
| "plus_number PInf b = PInf"
| "plus_number a PInf = PInf"
| "plus_number NInf b = NInf"
| "plus_number a NInf = NInf"

fun minus_number :: "number \<Rightarrow> number \<Rightarrow> number" where
  "minus_number NaN b = NaN"
| "minus_number a NaN = NaN"
| "minus_number (Fin a) (Fin b) = Fin (a - b)"
| "minus_number PInf PInf = NaN"
| "minus_number NInf NInf = NaN"
| "minus_number PInf b = PInf"
| "minus_number a NInf = PInf"
| "minus_number NInf b = NInf"
| "minus_number a PInf = NInf"

fun times_number :: "number \<Rightarrow> number \<Rightarrow> number" where
  "times_number NaN b = NaN"
| "times_number a NaN = NaN"
| "times_number (Fin a) (Fin b) = Fin (a * b)"
| "times_number PInf (Fin b) = (if b = 0 then NaN else if 0 < b then PInf else NInf)"
| "times_number NInf (Fin b) = (if b = 0 then NaN else if 0 < b then NInf else PInf)"
| "times_number (Fin a) PInf = (if a = 0 then NaN else if 0 < a then PInf else NInf)"
| "times_number (Fin a) NInf = (if a = 0 then NaN else if 0 < a then NInf else PInf)"
| "times_number PInf PInf = PInf"
| "times_number NInf NInf = PInf"
| "times_number PInf NInf = NInf"
| "times_number NInf PInf = NInf"

fun divide_number :: "number \<Rightarrow> number \<Rightarrow> number" where
  "divide_number NaN b = NaN"
| "divide_number a NaN = NaN"
| "divide_number (Fin a) (Fin b) =
     (if b = 0 then (if a = 0 then NaN else if 0 < a then PInf else NInf) else Fin (a / b))"
| "divide_number (Fin a) b = Fin 0"
| "divide_number PInf (Fin b) = (if 0 \<le> b then PInf else NInf)"
| "divide_number NInf (Fin b) = (if 0 \<le> b then NInf else PInf)"
| "divide_number a b = NaN"

fun less_eq_number :: "number \<Rightarrow> number \<Rightarrow> bool" where
  "less_eq_number NaN b = False"
| "less_eq_number a NaN = False"
| "less_eq_number (Fin a) (Fin b) = (a \<le> b)"
| "less_eq_number NInf b = True"
| "less_eq_number a PInf = True"
| "less_eq_number a b = False"

fun less_number :: "number \<Rightarrow> number \<Rightarrow> bool" where
  "less_number NaN b = False"
| "less_number a NaN = False"
| "less_number (Fin a) (Fin b) = (a < b)"
| "less_number NInf NInf = False"
| "less_number PInf PInf = False"
| "less_number NInf b = True"
| "less_number a PInf = True"
| "less_number a b = False"

instance ..

end

instantiation number :: inverse
begin

definition inverse_number :: "number \<Rightarrow> number" where
  "inverse_number a = divide (Fin 1) a"

instance ..

end

definition Math_PI :: number where
  "Math_PI = Fin pi"

fun Math_floor :: "number \<Rightarrow> number" where
  "Math_floor (Fin a) = Fin (of_int \<lfloor>a\<rfloor>)"
| "Math_floor a = a"

fun Math_log :: "number \<Rightarrow> number" where
  "Math_log (Fin a) = (if a < 0 then NaN else if a = 0 then NInf else Fin (ln a))"
| "Math_log PInf = PInf"
| "Math_log a = NaN"

fun Math_exp :: "number \<Rightarrow> number" where
  "Math_exp (Fin a) = Fin (exp a)"
| "Math_exp NInf = Fin 0"
| "Math_exp a = a"

fun Math_tan :: "number \<Rightarrow> number" where
  "Math_tan (Fin a) = Fin (tan a)"
| "Math_tan a = NaN"

fun Math_cos :: "number \<Rightarrow> number" where
  "Math_cos (Fin a) = Fin (cos a)"
| "Math_cos a = NaN"

fun Math_atan :: "number \<Rightarrow> number" where
  "Math_atan (Fin a) = Fin (arctan a)"
| "Math_atan PInf = Fin (pi / 2)"
| "Math_atan NInf = Fin (- (pi / 2))"
| "Math_atan NaN = NaN"

text \<open>\<open>Math.pow(base, n)\<close> for a non-negative integer exponent, the only use the program makes
  of it (\<open>Math.pow(2, z)\<close> with a zoom level).\<close>

fun Math_pow :: "number \<Rightarrow> nat \<Rightarrow> number" where
  "Math_pow b 0 = Fin 1"
| "Math_pow NaN n = NaN"
| "Math_pow (Fin b) n = Fin (b ^ n)"
| "Math_pow PInf n = PInf"
| "Math_pow NInf n = (if even n then PInf else NInf)"



subsection \<open>32-bit integer operators\<close>

text \<open>The bitwise operators convert their operands with \<open>ToInt32\<close> and return a signed 32-bit
  integer. \<open>wrap32\<close> is \<open>ToInt32\<close> on an integer, \<open>ToInt32\<close> the conversion of a Number.\<close>

definition wrap32 :: "int \<Rightarrow> int" where
  "wrap32 v = (v + 2 ^ 31) mod 2 ^ 32 - 2 ^ 31"

fun ToInt32 :: "number \<Rightarrow> int" where
  "ToInt32 (Fin a) = wrap32 (if a < 0 then - \<lfloor>- a\<rfloor> else \<lfloor>a\<rfloor>)"
| "ToInt32 a = 0"

definition shl32 :: "int \<Rightarrow> nat \<Rightarrow> int" where
  "shl32 a k = wrap32 (push_bit (k mod 32) (wrap32 a))"

definition sar32 :: "int \<Rightarrow> nat \<Rightarrow> int" where
  "sar32 a k = drop_bit (k mod 32) (wrap32 a)"

definition and32 :: "int \<Rightarrow> int \<Rightarrow> int" where
  "and32 a b = wrap32 a AND wrap32 b"

definition or32 :: "int \<Rightarrow> int \<Rightarrow> int" where
  "or32 a b = wrap32 a OR wrap32 b"

definition xor32 :: "int \<Rightarrow> int \<Rightarrow> int" where
  "xor32 a b = wrap32 a XOR wrap32 b"

section \<open>Protobuf / MVT encoding\<close>

text \<open>A byte array under construction is a JavaScript array of Numbers; the program only ever
  pushes integers, so it is an \<open>int list\<close>. \<open>arr.push(v)\<close> appends one element and
  \<open>arr.push(...xs)\<close> appends all of \<open>xs\<close> (the limit an engine puts on the number of arguments
  of one call is not modelled). \<open>writeVarint\<close> is the \<open>while\<close> loop of the source: the
  comparison \<open>val > 0x7F\<close> is on the Number, \<open>&\<close>, \<open>|\<close> and \<open>>>=\<close> are 32-bit.\<close>

function writeVarint :: "int list \<Rightarrow> int \<Rightarrow> int list" where
  "writeVarint arr val =
     (if val > 0x7F
      then writeVarint (arr @ [or32 (and32 val 0x7F) 0x80]) (sar32 val 7)
      else arr @ [val])"
  by pat_completeness auto
termination
proof (relation "measure (\<lambda>(arr, val). nat val)")
  show "wf (measure (\<lambda>(arr :: int list, val). nat val))"
    by simp
next
  fix arr :: "int list" and val :: int
  assume h: "0x7F < val"
  have "(val + 2 ^ 31) mod 2 ^ 32 \<le> val + 2 ^ 31"
    using h by (intro zmod_le_nonneg_dividend) simp
  then have le: "wrap32 val \<le> val"
    by (simp add: wrap32_def)
  have "wrap32 val div 128 < val"
  proof (cases "wrap32 val \<le> 0")
    case True
    then have "wrap32 val div 128 \<le> 0"
      by (simp add: div_nonpos_pos_le0)
    with h show ?thesis by linarith
  next
    case False
    then have "wrap32 val div 128 < wrap32 val"
      by (simp add: int_div_less_self)
    with le show ?thesis by linarith
  qed
  then show "((arr @ [or32 (and32 val 0x7F) 0x80], sar32 val 7), (arr, val))
      \<in> measure (\<lambda>(arr, val). nat val)"
    using h by (simp add: sar32_def drop_bit_eq_div)
qed

declare writeVarint.simps [simp del]

text \<open>\<open>Buffer.from(str, 'utf8')\<close>: a \<open>string\<close> is a list of 8-bit characters, read as the
  UTF-8 bytes of the text.\<close>

definition utf8_bytes :: "string \<Rightarrow> int list" where
  "utf8_bytes str = map of_char str"

definition writeString :: "int list \<Rightarrow> int \<Rightarrow> string \<Rightarrow> int list" where
  "writeString arr fieldNumber str =
     (let arr1 = writeVarint arr (or32 (shl32 fieldNumber 3) 2);
          utf8 = utf8_bytes str;
          arr2 = writeVarint arr1 (int (length utf8))
      in fold (\<lambda>byte a. a @ [byte]) utf8 arr2)"

definition zigZagEncode :: "number \<Rightarrow> int" where
  "zigZagEncode num = xor32 (shl32 (ToInt32 num) 1) (sar32 (ToInt32 num) 31)"

definition createPointGeometryCommand :: "number \<Rightarrow> number \<Rightarrow> int list" where
  "createPointGeometryCommand x y =
     (let commandMoveTo = or32 (and32 1 0x7) (shl32 1 3);
          dx = zigZagEncode x;
          dy = zigZagEncode y
      in [commandMoveTo, dx, dy])"

text \<open>A feature, as the program reads it: \<open>feat.geometry.coordinates\<close> (a pair of Numbers) and
  \<open>feat.properties\<close> (an object, or absent: \<open>None\<close>). The constant tags \<open>type: 'Feature'\<close> and
  \<open>geometry.type: 'Point'\<close> are never read and are left out.\<close>

record 'v feature =
  properties :: "(string \<rightharpoonup> 'v) option"
  coordinates :: "number \<times> number"

record 'v featureCollection =
  features :: "'v feature list"

definition encodeFeature :: "'v feature \<Rightarrow> int list" where
  "encodeFeature feature =
     (let (x, y) = coordinates feature;
          geomCmds = createPointGeometryCommand x y;
          geomTypePoint = 1;
          bytes1 = writeVarint [] (or32 (shl32 3 3) 0);
          bytes2 = writeVarint bytes1 geomTypePoint;
          bytes3 = writeVarint bytes2 (or32 (shl32 4 3) 2);
          geomBuffer = fold (\<lambda>val buf. writeVarint buf val) geomCmds [];
          bytes4 = writeVarint bytes3 (int (length geomBuffer));
          bytes5 = fold (\<lambda>b a. a @ [b]) geomBuffer bytes4;
          featureWrapper1 = writeVarint [] (or32 (shl32 2 3) 2);
          featureWrapper2 = writeVarint featureWrapper1 (int (length bytes5))
      in featureWrapper2 @ bytes5)"

definition encodeLayer :: "'v feature list \<Rightarrow> string \<Rightarrow> int \<Rightarrow> int list" where
  "encodeLayer feats layerName extent =
     (let layerBytes1 = writeString [] 1 layerName;
          layerBytes2 = writeVarint layerBytes1 (or32 (shl32 5 3) 0);
          layerBytes3 = writeVarint layerBytes2 extent;
          layerBytes4 = fold (\<lambda>f a. a @ encodeFeature f) feats layerBytes3;
          layerWrapper1 = writeVarint [] (or32 (shl32 3 3) 2);
          layerWrapper2 = writeVarint layerWrapper1 (int (length layerBytes4))
      in layerWrapper2 @ layerBytes4)"

text \<open>\<open>Buffer.from(array)\<close> stores every element modulo 256.\<close>

definition Buffer_from :: "int list \<Rightarrow> int list" where
  "Buffer_from arr = map (\<lambda>v. v mod 256) arr"

section \<open>Tile coordinates and projection\<close>

text \<open>A tile address is a zoom level \<open>z\<close> (a natural number) and integer indices \<open>x\<close>, \<open>y\<close>.\<close>

definition tile2lon :: "int \<Rightarrow> nat \<Rightarrow> number" where
  "tile2lon x z = (Fin (of_int x) / Math_pow (Fin 2) z) * Fin 360 - Fin 180"

definition tile2lat :: "int \<Rightarrow> nat \<Rightarrow> number" where
  "tile2lat y z =
     (let n = Math_PI - Fin 2 * Math_PI * Fin (of_int y) / Math_pow (Fin 2) z
      in (Fin 180 / Math_PI) * Math_atan (Fin 0.5 * (Math_exp n - Math_exp (Fin 0 - n))))"

definition tileBbox :: "nat \<Rightarrow> int \<Rightarrow> int \<Rightarrow> number \<times> number \<times> number \<times> number" where
  "tileBbox z x y =
     (let west = tile2lon x z;
          east = tile2lon (x + 1) z;
          south = tile2lat (y + 1) z;
          north = tile2lat y z
      in (west, south, east, north))"

definition lonLatToMeters :: "number \<Rightarrow> number \<Rightarrow> number \<times> number" where
  "lonLatToMeters lon lat =
     (let x = lon * Fin 20037508.34 / Fin 180;
          y = Math_log (Math_tan ((Fin 90 + lat) * Math_PI / Fin 360)) / (Math_PI / Fin 180);
          y' = y * Fin 20037508.34 / Fin 180
      in (x, y'))"

definition tileBboxMeters :: "nat \<Rightarrow> int \<Rightarrow> int \<Rightarrow> number \<times> number \<times> number \<times> number" where
  "tileBboxMeters z x y =
     (let (lonMin, latMin, lonMax, latMax) = tileBbox z x y;
          (minX, minY) = lonLatToMeters lonMin latMin;
          (maxX, maxY) = lonLatToMeters lonMax latMax
      in (minX, minY, maxX, maxY))"

definition projectToTileCoordinates ::
    "number \<Rightarrow> number \<Rightarrow> number \<Rightarrow> number \<times> number \<times> number \<times> number \<Rightarrow> number \<times> number" where
  "projectToTileCoordinates lon lat extent bboxMerc =
     (let (minX, minY, maxX, maxY) = bboxMerc;
          (mx, my) = lonLatToMeters lon lat;
          width = maxX - minX;
          height = maxY - minY;
          xRel = (mx - minX) / width;
          yRel = (maxY - my) / height;
          xTile = xRel * extent;
          yTile = yRel * extent
      in (Math_floor xTile, Math_floor yTile))"

section \<open>The tile builder\<close>

text \<open>The clipping loop of \<open>generateTilePbf\<close>: one step per input feature, appending the
  projected feature when the point passes the bbox test against the tile's bbox
  \<open>(w, s, e, n)\<close>.\<close>

definition clipStep ::
    "number \<times> number \<times> number \<times> number \<Rightarrow> number \<times> number \<times> number \<times> number \<Rightarrow>
     'v feature \<Rightarrow> 'v feature list \<Rightarrow> 'v feature list" where
  "clipStep bbox bboxMerc feat filtered =
     (let (w, s, e, n) = bbox;
          (lon, lat) = coordinates feat
      in if lon \<ge> w \<and> lon \<le> e \<and> lat \<ge> s \<and> lat \<le> n
         then (let (xt, yt) = projectToTileCoordinates lon lat (Fin 4096) bboxMerc;
                   newFeature = \<lparr>properties =
                       Some (case properties feat of None \<Rightarrow> Map.empty | Some m \<Rightarrow> m),
                     coordinates = (xt, yt)\<rparr>
               in filtered @ [newFeature])
         else filtered)"

definition filteredFeatures :: "'v featureCollection \<Rightarrow> nat \<Rightarrow> int \<Rightarrow> int \<Rightarrow> 'v feature list" where
  "filteredFeatures geojson z x y =
     (let bbox = tileBbox z x y;
          bboxMerc = tileBboxMeters z x y
      in fold (clipStep bbox bboxMerc) (features geojson) [])"

definition generateTilePbf :: "'v featureCollection \<Rightarrow> nat \<Rightarrow> int \<Rightarrow> int \<Rightarrow> int list" where
  "generateTilePbf geojson z x y =
     (let filtered = filteredFeatures geojson z x y
      in if length filtered = 0 then Buffer_from []
         else (let layerBytes = encodeLayer filtered ''myLayer'' 4096;
                   tileBytes = layerBytes
               in Buffer_from tileBytes))"

section \<open>Bounding box and tile range\<close>

definition getGeoJsonBBox :: "'v featureCollection \<Rightarrow> number \<times> number \<times> number \<times> number" where
  "getGeoJsonBBox geojson =
     fold (\<lambda>feat (west, south, east, north).
             (let (lon, lat) = coordinates feat;
                  west' = (if lon < west then lon else west);
                  east' = (if lon > east then lon else east);
                  south' = (if lat < south then lat else south);
                  north' = (if lat > north then lat else north)
              in (west', south', east', north')))
       (features geojson) (Fin 180, Fin 90, Fin (- 180), Fin (- 90))"

definition long2tileX :: "number \<Rightarrow> nat \<Rightarrow> number" where
  "long2tileX lon zoom = Math_floor ((lon + Fin 180) / Fin 360 * Math_pow (Fin 2) zoom)"

definition lat2tileY :: "number \<Rightarrow> nat \<Rightarrow> number" where
  "lat2tileY lat zoom =
     (let rad = lat * Math_PI / Fin 180
      in Math_floor
           ((Fin 1 - Math_log (Math_tan rad + Fin 1 / Math_cos rad) / Math_PI) / Fin 2
              * Math_pow (Fin 2) zoom))"


section \<open>The wire format, as the specification words it\<close>

text \<open>A base-128 varint of a natural number: 7-bit groups, low-order group first, the
  continuation bit \<open>0x80\<close> set on every byte but the last.\<close>

fun pb_varint :: "nat \<Rightarrow> int list" where
  "pb_varint n = (if n < 128 then [int n] else (int (n mod 128) + 128) # pb_varint (n div 128))"

declare pb_varint.simps [simp del]

text \<open>A byte sequence is one well-formed varint when it is not empty, every element is a
  byte, the last byte has the continuation bit clear and every other byte has it set.\<close>

fun wf_varint :: "int list \<Rightarrow> bool" where
  "wf_varint [] = False"
| "wf_varint [b] = (0 \<le> b \<and> b < 128)"
| "wf_varint (b # bs) = (128 \<le> b \<and> b < 256 \<and> wf_varint bs)"

text \<open>The protobuf reader of a varint at the head of a byte stream: the value and the rest
  of the stream, or \<open>None\<close> when the stream ends inside the varint.\<close>

fun decode_varint :: "int list \<Rightarrow> (int \<times> int list) option" where
  "decode_varint [] = None"
| "decode_varint (b # bs) =
     (if b div 128 mod 2 = 0 then Some (b mod 128, bs)
      else (case decode_varint bs of
              None \<Rightarrow> None
            | Some (v, rest) \<Rightarrow> Some (b mod 128 + 128 * v, rest)))"

text \<open>Protobuf fields: a tag is the varint of \<open>(fieldNumber << 3) | wireType\<close>; wire type 0
  is a varint value, wire type 2 a length-delimited payload.\<close>

definition pb_tag :: "nat \<Rightarrow> nat \<Rightarrow> int list" where
  "pb_tag fieldNumber wireType = pb_varint (fieldNumber * 8 + wireType)"

definition pb_varint_field :: "nat \<Rightarrow> nat \<Rightarrow> int list" where
  "pb_varint_field fieldNumber v = pb_tag fieldNumber 0 @ pb_varint v"

definition pb_bytes_field :: "nat \<Rightarrow> int list \<Rightarrow> int list" where
  "pb_bytes_field fieldNumber payload = pb_tag fieldNumber 2 @ pb_varint (length payload) @ payload"

definition pb_packed :: "nat list \<Rightarrow> int list" where
  "pb_packed vs = concat (map pb_varint vs)"

text \<open>The MVT messages the tile builder is specified to emit: a Feature (field 2 of a
  Layer) holding \<open>type = 1\<close> (POINT, field 3) and the packed geometry (field 4), and a Layer
  (field 3 of a Tile) holding the name (field 1), the extent (field 5) and the features.\<close>

definition mvt_point_feature :: "nat list \<Rightarrow> int list" where
  "mvt_point_feature geometry =
     pb_bytes_field 2 (pb_varint_field 3 1 @ pb_bytes_field 4 (pb_packed geometry))"


text \<open>The zigzag map of a signed integer to an unsigned one, \<open>0, -1, 1, -2, 2, \<dots>\<close> to
  \<open>0, 1, 2, 3, 4, \<dots>\<close>, which the specification writes \<open>(n << 1) ^ (n >> 31)\<close> on 32-bit
  signed integers; it is given here by its values, without the 32-bit operators.\<close>

definition zigzag :: "int \<Rightarrow> nat" where
  "zigzag n = (if 0 \<le> n then nat (2 * n) else nat (- 2 * n - 1))"

text \<open>The inclusive containment test: \<open>lon\<close> in \<open>[west, east]\<close> and \<open>lat\<close> in
  \<open>[south, north]\<close>.\<close>

definition in_bbox :: "number \<times> number \<times> number \<times> number \<Rightarrow> number \<times> number \<Rightarrow> bool" where
  "in_bbox bbox p =
     (case bbox of (west, south, east, north) \<Rightarrow>
        case p of (lon, lat) \<Rightarrow> west \<le> lon \<and> lon \<le> east \<and> south \<le> lat \<and> lat \<le> north)"

text \<open>The input features that pass the test for a tile, in input order, and the feature the
  clipping loop builds from one of them.\<close>

definition survivors :: "'v featureCollection \<Rightarrow> nat \<Rightarrow> int \<Rightarrow> int \<Rightarrow> 'v feature list" where
  "survivors geojson z x y =
     filter (\<lambda>feat. in_bbox (tileBbox z x y) (coordinates feat)) (features geojson)"

definition projectFeature :: "nat \<Rightarrow> int \<Rightarrow> int \<Rightarrow> 'v feature \<Rightarrow> 'v feature" where
  "projectFeature z x y feat =
     \<lparr>properties = Some (case properties feat of None \<Rightarrow> Map.empty | Some m \<Rightarrow> m),
      coordinates = (case coordinates feat of (lon, lat) \<Rightarrow>
         projectToTileCoordinates lon lat (Fin 4096) (tileBboxMeters z x y))\<rparr>"

text \<open>Malformed coordinates, as the specification lists them: a longitude or latitude that
  is \<open>NaN\<close> or infinite, or a latitude at or beyond \<open>\<plusminus>90\<close> degrees.\<close>

definition malformed :: "number \<times> number \<Rightarrow> bool" where
  "malformed p =
     (case p of (lon, lat) \<Rightarrow>
        lon = NaN \<or> lat = NaN \<or> lon = PInf \<or> lon = NInf \<or> lat = PInf \<or> lat = NInf
        \<or> Fin 90 \<le> lat \<or> lat \<le> Fin (- 90))"

text \<open>A tile address is valid when both indices are in \<open>[0, 2^z - 1]\<close>; a tile index at zoom
  \<open>z\<close> is valid when it is an integer in that range.\<close>

definition valid_tile :: "nat \<Rightarrow> int \<Rightarrow> int \<Rightarrow> bool" where
  "valid_tile z x y = (0 \<le> x \<and> x \<le> 2 ^ z - 1 \<and> 0 \<le> y \<and> y \<le> 2 ^ z - 1)"


section \<open>Auxiliary definitions\<close>

text \<open>Every element of a byte array is a byte.\<close>

definition is_bytes :: "int list \<Rightarrow> bool" where
  "is_bytes bs = (\<forall>b \<in> set bs. 0 \<le> b \<and> b < 256)"

text \<open>The tile corner formulas and the Mercator projection on reals: the values the
  Number-valued functions of the program take on finite arguments.\<close>

definition lon_of_tile :: "int \<Rightarrow> nat \<Rightarrow> real" where
  "lon_of_tile x z = of_int x / 2 ^ z * 360 - 180"

definition lat_of_tile :: "int \<Rightarrow> nat \<Rightarrow> real" where
  "lat_of_tile y z =
     180 / pi * arctan (0.5 * (exp (pi - 2 * pi * of_int y / 2 ^ z) - exp (- (pi - 2 * pi * of_int y / 2 ^ z))))"

definition merc_x :: "real \<Rightarrow> real" where
  "merc_x lon = lon * 20037508.34 / 180"

definition merc_y :: "real \<Rightarrow> real" where
  "merc_y lat = ln (tan ((90 + lat) * pi / 360)) / (pi / 180) * 20037508.34 / 180"

text \<open>The scaled relative positions that \<open>projectToTileCoordinates\<close> truncates.\<close>

definition x_tile :: "nat \<Rightarrow> int \<Rightarrow> real \<Rightarrow> real \<Rightarrow> real" where
  "x_tile z x ext l =
     (merc_x l - merc_x (lon_of_tile x z))
       / (merc_x (lon_of_tile (x + 1) z) - merc_x (lon_of_tile x z)) * ext"

definition y_tile :: "nat \<Rightarrow> int \<Rightarrow> real \<Rightarrow> real \<Rightarrow> real" where
  "y_tile z y ext t =
     (merc_y (lat_of_tile y z) - merc_y t)
       / (merc_y (lat_of_tile y z) - merc_y (lat_of_tile (y + 1) z)) * ext"

text \<open>Two concrete inputs: a collection of one point at longitude 0, latitude 0, which is
  the south-west corner of tile \<open>(z, x, y) = (2, 2, 1)\<close>, without properties and with a
  property.\<close>

definition corner_point :: "string featureCollection" where
  "corner_point = \<lparr>features = [\<lparr>properties = None, coordinates = (Fin 0, Fin 0)\<rparr>]\<rparr>"

definition named_corner_point :: "string featureCollection" where
  "named_corner_point =
     \<lparr>features = [\<lparr>properties = Some [''name'' \<mapsto> ''origin''], coordinates = (Fin 0, Fin 0)\<rparr>]\<rparr>"


section \<open>Binary primitives: \<open>writeVarint\<close>\<close>

lemma wrap32_id: "- (2 ^ 31) \<le> v \<Longrightarrow> v < 2 ^ 31 \<Longrightarrow> wrap32 v = v"
  by (simp add: wrap32_def)

lemma and_or_group:
  assumes "0 \<le> v" "v < 2 ^ 31"
  shows "or32 (and32 v 0x7F) 0x80 = v mod 128 + 128"
proof -
  have m: "(0x7F :: int) = mask 7" by (simp add: mask_eq_exp_minus_1)
  have "wrap32 0x7F = 0x7F" by (simp add: wrap32_def)
  then have "and32 v 0x7F = v AND mask 7"
    using assms by (simp add: and32_def wrap32_id m)
  then have a: "and32 v 0x7F = v mod 128"
    by (simp add: take_bit_eq_mod flip: take_bit_eq_mask)
  have r: "0 \<le> v mod 128" "v mod 128 < 128" by simp_all
  have "(v mod 128) AND 128 = 0"
  proof -
    have "\<not> bit (take_bit 7 v) 7"
      by (simp add: bit_take_bit_iff)
    then have "take_bit 7 v AND 2 ^ 7 = 0"
      by (simp only: and_exp_eq_0_iff_not_bit simp_thms)
    then show ?thesis by (simp add: take_bit_eq_mod)
  qed
  then have "v mod 128 + 128 = (v mod 128) OR 128"
    by (rule disjunctive_add_eq_or)
  then show ?thesis using r by (simp add: a or32_def wrap32_id)
qed

text \<open>On a non-negative value below \<open>2^31\<close> the loop appends exactly the varint.\<close>

lemma writeVarint_pb:
  "0 \<le> v \<Longrightarrow> v < 2 ^ 31 \<Longrightarrow> writeVarint arr v = arr @ pb_varint (nat v)"
proof (induction "nat v" arbitrary: v arr rule: less_induct)
  case less
  show ?case
  proof (cases "v > 0x7F")
    case False
    with less.prems show ?thesis by (simp add: writeVarint.simps pb_varint.simps)
  next
    case True
    let ?v' = "sar32 v 7"
    have v': "?v' = v div 128"
      using less.prems by (simp add: sar32_def wrap32_id drop_bit_eq_div)
    have b: "0 \<le> ?v'" "?v' < 2 ^ 31" "nat ?v' < nat v"
      using less.prems True unfolding v' by auto
    have "writeVarint arr v = writeVarint (arr @ [v mod 128 + 128]) ?v'"
      using True less.prems by (subst writeVarint.simps) (simp add: and_or_group)
    also have "\<dots> = (arr @ [v mod 128 + 128]) @ pb_varint (nat ?v')"
      using b by (intro less.hyps) auto
    also have "\<dots> = arr @ pb_varint (nat v)"
    proof -
      have "nat v mod 128 = nat (v mod 128)" "nat v div 128 = nat (v div 128)"
        using less.prems by (simp_all add: nat_mod_distrib nat_div_distrib)
      then show ?thesis
        using True less.prems by (subst (2) pb_varint.simps) (simp add: v')
    qed
    finally show ?thesis .
  qed
qed

lemma pb_varint_wf: "wf_varint (pb_varint n)"
proof (induction n rule: pb_varint.induct)
  case (1 n)
  show ?case
  proof (cases "n < 128")
    case True
    then show ?thesis by (simp add: pb_varint.simps)
  next
    case False
    with 1 have ih: "wf_varint (pb_varint (n div 128))" by simp
    then obtain c cs where "pb_varint (n div 128) = c # cs"
      by (cases "pb_varint (n div 128)") auto
    with ih False show ?thesis
      by (subst pb_varint.simps) simp
  qed
qed

lemma decode_pb_varint: "decode_varint (pb_varint n @ rest) = Some (int n, rest)"
proof (induction n rule: pb_varint.induct)
  case (1 n)
  show ?case
  proof (cases "n < 128")
    case True
    then show ?thesis by (simp add: pb_varint.simps)
  next
    case False
    with 1 have ih: "decode_varint (pb_varint (n div 128) @ rest) = Some (int (n div 128), rest)"
      by simp
    have g: "(int (n mod 128) + 128) div 128 mod 2 = 1"
      "(int (n mod 128) + 128) mod 128 = int (n mod 128)"
      by (simp_all add: zmod_int div_pos_pos_trivial)
    show ?thesis
      using False by (subst pb_varint.simps) (simp add: g ih zdiv_int zmod_int)
  qed
qed

text \<open>
  \<^bold>\<open>Claim C1\<close> (as amended). For every integer \<open>n\<close> with \<open>0 \<le> n \<le> 2^31 - 1\<close>,
  \<open>writeVarint(buf, n)\<close> leaves \<open>buf\<close> in place and appends a well-formed base-128 varint
  (every element a byte, the continuation bit set on every byte but the last) that the
  reader decodes back to \<open>n\<close>, consuming exactly the appended bytes.
\<close>

theorem writeVarint_roundtrip:
  assumes "0 \<le> n" and "n < 2 ^ 31"
  shows "take (length buf) (writeVarint buf n) = buf
    \<and> wf_varint (drop (length buf) (writeVarint buf n))
    \<and> decode_varint (drop (length buf) (writeVarint buf n) @ rest) = Some (n, rest)"
  using assms by (simp add: writeVarint_pb pb_varint_wf decode_pb_varint)

theorem writeVarint_roundtrip_witness:
  "(0::int) \<le> 300 \<and> (300::int) < 2 ^ 31
    \<and> take (length [7::int]) (writeVarint [7] 300) = [7]
    \<and> wf_varint (drop (length [7::int]) (writeVarint [7] 300))
    \<and> decode_varint (drop (length [7::int]) (writeVarint [7] 300) @ [1, 2]) = Some (300, [1, 2])"
  using writeVarint_roundtrip [of 300 "[7]" "[1, 2]"] by simp

text \<open>
  The claim as stated, for every \<open>n\<close> up to \<open>2^32 - 1\<close>, fails at \<open>n = 2^31\<close>: \<open>val >>= 7\<close> is
  a signed 32-bit shift, so the value turns negative, the loop stops, and the second
  element pushed is \<open>-16777216\<close>, not a byte. After \<open>Buffer.from\<close> the two bytes are
  \<open>0x80 0x00\<close>, which decode to \<open>0\<close>.
\<close>

theorem writeVarint_uint32_counterexample:
  "writeVarint [] 2147483648 = [128, - 16777216]
    \<and> \<not> wf_varint (drop (length ([] :: int list)) (writeVarint [] 2147483648))
    \<and> decode_varint (Buffer_from (writeVarint [] 2147483648)) = Some (0, [])"
  by (simp add: writeVarint.simps or32_def and32_def sar32_def wrap32_def Buffer_from_def)



section \<open>The bounding box of a feature collection\<close>

text \<open>
  \<^bold>\<open>Claim C10\<close>. For a feature collection with no features, \<open>getGeoJsonBBox\<close> returns
  exactly \<open>[180, 90, -180, -90]\<close>: a value, not an error, with west greater than east and
  south greater than north, so that neither \<open>west \<le> east\<close> nor \<open>south \<le> north\<close> holds.
\<close>

theorem getGeoJsonBBox_empty:
  "getGeoJsonBBox \<lparr>features = []\<rparr> = (Fin 180, Fin 90, Fin (- 180), Fin (- 90))
    \<and> (case getGeoJsonBBox \<lparr>features = []\<rparr> of
         (west, south, east, north) \<Rightarrow>
           west > east \<and> south > north \<and> \<not> west \<le> east \<and> \<not> south \<le> north)"
  by (simp add: getGeoJsonBBox_def)

section \<open>Tile corners and the Mercator projection on finite numbers\<close>

lemma Math_pow_Fin: "Math_pow (Fin b) n = Fin (b ^ n)"
  by (cases n) simp_all

lemma deg_bounds:
  assumes "- (pi / 2) < a" "a < pi / 2"
  shows "- 90 < 180 / pi * a" "180 / pi * a < 90"
proof -
  have "180 / pi * (- (pi / 2)) < 180 / pi * a" "180 / pi * a < 180 / pi * (pi / 2)"
    using assms by (simp_all only: mult_less_cancel_left_pos [of "180 / pi"] pi_gt_zero zero_less_divide_iff zero_less_numeral simp_thms)
  then show "- 90 < 180 / pi * a" "180 / pi * a < 90"
    by simp_all
qed

lemma tile2lon_Fin: "tile2lon x z = Fin (lon_of_tile x z)"
  by (simp add: tile2lon_def lon_of_tile_def Math_pow_Fin)

lemma tile2lat_Fin: "tile2lat y z = Fin (lat_of_tile y z)"
  by (simp add: tile2lat_def lat_of_tile_def Math_PI_def Let_def Math_pow_Fin)

lemma lon_of_tile_mono: "x < x' \<Longrightarrow> lon_of_tile x z < lon_of_tile x' z"
  by (simp add: lon_of_tile_def divide_strict_right_mono)

lemma lat_of_tile_bounds: "- 90 < lat_of_tile y z" "lat_of_tile y z < 90"
proof -
  let ?a = "arctan (0.5 * (exp (pi - 2 * pi * of_int y / 2 ^ z) - exp (- (pi - 2 * pi * of_int y / 2 ^ z))))"
  have a: "- (pi / 2) < ?a" "?a < pi / 2"
    by (rule arctan_lbound, rule arctan_ubound)
  show "- 90 < lat_of_tile y z" "lat_of_tile y z < 90"
    unfolding lat_of_tile_def by (rule deg_bounds [OF a])+
qed

lemma lat_of_tile_antimono: "y < y' \<Longrightarrow> lat_of_tile y' z < lat_of_tile y z"
proof -
  assume h: "y < y'"
  let ?n = "\<lambda>y::int. pi - 2 * pi * of_int y / 2 ^ z"
  have "2 * pi * of_int y / 2 ^ z < 2 * pi * of_int y' / 2 ^ z"
    using h by (simp add: divide_strict_right_mono)
  then have n: "?n y' < ?n y" by simp
  then have "exp (?n y') - exp (- ?n y') < exp (?n y) - exp (- ?n y)"
    by (simp add: diff_strict_mono)
  then have "arctan (0.5 * (exp (?n y') - exp (- ?n y'))) < arctan (0.5 * (exp (?n y) - exp (- ?n y)))"
    by (simp add: arctan_less_iff)
  then show ?thesis
    unfolding lat_of_tile_def by (intro mult_strict_left_mono) simp_all
qed

lemma merc_arg: "- 90 < lat \<Longrightarrow> lat < 90 \<Longrightarrow> 0 < (90 + lat) * pi / 360 \<and> (90 + lat) * pi / 360 < pi / 2"
proof -
  assume "- 90 < lat" "lat < 90"
  then have "0 < 90 + lat" "90 + lat < 180" by simp_all
  then have "0 < (90 + lat) * pi" "(90 + lat) * pi < 180 * pi"
    by (simp_all)
  then show ?thesis by simp
qed

lemma lonLatToMeters_Fin:
  "- 90 < lat \<Longrightarrow> lat < 90 \<Longrightarrow>
   lonLatToMeters (Fin lon) (Fin lat) = (Fin (lon * 20037508.34 / 180), Fin (merc_y lat))"
proof -
  assume h: "- 90 < lat" "lat < 90"
  have "0 < tan ((90 + lat) * pi / 360)"
    using merc_arg [OF h] by (simp add: tan_gt_zero)
  then show ?thesis
    by (simp add: lonLatToMeters_def merc_y_def Math_PI_def Let_def)
qed

lemma merc_y_mono:
  assumes "- 90 < a" "a < b" "b < 90"
  shows "merc_y a < merc_y b"
proof -
  have a: "0 < (90 + a) * pi / 360" "(90 + a) * pi / 360 < pi / 2"
    using merc_arg [of a] assms by simp_all
  have b: "0 < (90 + b) * pi / 360" "(90 + b) * pi / 360 < pi / 2"
    using merc_arg [of b] assms by simp_all
  have lt: "(90 + a) * pi / 360 < (90 + b) * pi / 360"
    using assms by simp
  have lo: "- (pi / 2) < (90 + a) * pi / 360"
    using a(1) pi_gt_zero by linarith
  have "tan ((90 + a) * pi / 360) < tan ((90 + b) * pi / 360)"
    by (rule tan_monotone [OF lo lt b(2)])
  moreover have "0 < tan ((90 + a) * pi / 360)"
    using a by (simp add: tan_gt_zero)
  ultimately have "ln (tan ((90 + a) * pi / 360)) < ln (tan ((90 + b) * pi / 360))"
    by simp
  then have "ln (tan ((90 + a) * pi / 360)) / (pi / 180) < ln (tan ((90 + b) * pi / 360)) / (pi / 180)"
    by (simp add: divide_strict_right_mono)
  then show ?thesis
    by (simp add: merc_y_def)
qed

lemma merc_x_mono: "a < b \<Longrightarrow> merc_x a < merc_x b"
  by (simp add: merc_x_def)

lemma merc_x_mono_le: "a \<le> b \<Longrightarrow> merc_x a \<le> merc_x b"
  by (simp add: merc_x_def)

lemma merc_y_mono_le:
  assumes "- 90 < a" "a \<le> b" "b < 90"
  shows "merc_y a \<le> merc_y b"
  using merc_y_mono [of a b] assms by (cases "a = b") auto

lemma tileBbox_Fin:
  "tileBbox z x y =
     (Fin (lon_of_tile x z), Fin (lat_of_tile (y + 1) z),
      Fin (lon_of_tile (x + 1) z), Fin (lat_of_tile y z))"
  by (simp add: tileBbox_def tile2lon_Fin tile2lat_Fin)

lemma tileBboxMeters_Fin:
  "tileBboxMeters z x y =
     (Fin (merc_x (lon_of_tile x z)), Fin (merc_y (lat_of_tile (y + 1) z)),
      Fin (merc_x (lon_of_tile (x + 1) z)), Fin (merc_y (lat_of_tile y z)))"
  by (simp add: tileBboxMeters_def tileBbox_Fin lonLatToMeters_Fin lat_of_tile_bounds merc_x_def)

lemma between_Fin:
  "Fin a \<le> v \<Longrightarrow> v \<le> Fin b \<Longrightarrow> \<exists>r. v = Fin r \<and> a \<le> r \<and> r \<le> b"
  by (cases v) simp_all

lemma width_pos: "0 < merc_x (lon_of_tile (x + 1) z) - merc_x (lon_of_tile x z)"
  using merc_x_mono [OF lon_of_tile_mono [of x "x + 1" z]] by simp

lemma height_pos: "0 < merc_y (lat_of_tile y z) - merc_y (lat_of_tile (y + 1) z)"
  using merc_y_mono [OF lat_of_tile_bounds(1) lat_of_tile_antimono [of y "y + 1" z] lat_of_tile_bounds(2)]
  by simp

lemma project_Fin:
  assumes "- 90 < t" "t < 90"
  shows "projectToTileCoordinates (Fin l) (Fin t) (Fin ext) (tileBboxMeters z x y) =
     (Fin (of_int \<lfloor>x_tile z x ext l\<rfloor>), Fin (of_int \<lfloor>y_tile z y ext t\<rfloor>))"
  using assms width_pos [of x z] height_pos [of y z]
  by (simp add: projectToTileCoordinates_def tileBboxMeters_Fin lonLatToMeters_Fin
      x_tile_def y_tile_def merc_x_def)

lemma x_tile_range:
  assumes "lon_of_tile x z \<le> l" "l \<le> lon_of_tile (x + 1) z" "0 \<le> ext"
  shows "0 \<le> x_tile z x ext l" "x_tile z x ext l \<le> ext"
proof -
  let ?w = "merc_x (lon_of_tile (x + 1) z) - merc_x (lon_of_tile x z)"
  let ?d = "merc_x l - merc_x (lon_of_tile x z)"
  have d: "0 \<le> ?d" "?d \<le> ?w"
    using assms merc_x_mono_le by (simp_all)
  have w: "0 < ?w" by (rule width_pos)
  have r: "0 \<le> ?d / ?w" "?d / ?w \<le> 1"
    using d w by simp_all
  show "0 \<le> x_tile z x ext l"
    unfolding x_tile_def using r assms(3) by (intro mult_nonneg_nonneg)
  have "?d / ?w * ext \<le> 1 * ext"
    using r assms(3) by (intro mult_right_mono)
  then show "x_tile z x ext l \<le> ext"
    by (simp add: x_tile_def)
qed

lemma y_tile_range:
  assumes "lat_of_tile (y + 1) z \<le> t" "t \<le> lat_of_tile y z" "0 \<le> ext"
  shows "0 \<le> y_tile z y ext t" "y_tile z y ext t \<le> ext"
proof -
  let ?h = "merc_y (lat_of_tile y z) - merc_y (lat_of_tile (y + 1) z)"
  let ?d = "merc_y (lat_of_tile y z) - merc_y t"
  have lo: "- 90 < t" using assms(1) lat_of_tile_bounds(1) [of "y + 1" z] by linarith
  have hi: "t < 90" using assms(2) lat_of_tile_bounds(2) [of y z] by linarith
  have "merc_y t \<le> merc_y (lat_of_tile y z)"
    using lo assms(2) lat_of_tile_bounds(2) by (rule merc_y_mono_le)
  moreover have "merc_y (lat_of_tile (y + 1) z) \<le> merc_y t"
    using lat_of_tile_bounds(1) assms(1) hi by (rule merc_y_mono_le)
  ultimately have d: "0 \<le> ?d" "?d \<le> ?h" by simp_all
  have h: "0 < ?h" by (rule height_pos)
  have r: "0 \<le> ?d / ?h" "?d / ?h \<le> 1"
    using d h by simp_all
  show "0 \<le> y_tile z y ext t"
    unfolding y_tile_def using r assms(3) by (intro mult_nonneg_nonneg)
  have "?d / ?h * ext \<le> 1 * ext"
    using r assms(3) by (intro mult_right_mono)
  then show "y_tile z y ext t \<le> ext"
    by (simp add: y_tile_def)
qed

lemma x_tile_edges:
  "x_tile z x ext (lon_of_tile x z) = 0" "x_tile z x ext (lon_of_tile (x + 1) z) = ext"
  using width_pos [of x z] by (simp_all add: x_tile_def)

lemma y_tile_edges:
  "y_tile z y ext (lat_of_tile y z) = 0" "y_tile z y ext (lat_of_tile (y + 1) z) = ext"
  using height_pos [of y z] by (simp_all add: y_tile_def)

section \<open>The encoders\<close>


lemma fold_push_all: "fold (\<lambda>f a. a @ g f) xs acc = acc @ concat (map g xs)"
  by (induction xs arbitrary: acc) simp_all





lemma zigZagEncode_nonneg:
  assumes "0 \<le> k" "k < 2 ^ 30"
  shows "zigZagEncode (Fin (of_int k)) = 2 * k"
proof -
  have t: "ToInt32 (Fin (of_int k)) = k"
    using assms by (simp add: wrap32_id)
  have "push_bit 1 k = 2 * k" by (simp add: push_bit_eq_mult)
  then have s: "shl32 k 1 = 2 * k"
    using assms by (simp add: shl32_def wrap32_id)
  have "k div 2 ^ 31 = 0"
    using assms by (simp add: div_pos_pos_trivial)
  then have r: "sar32 k 31 = 0"
    using assms by (simp add: sar32_def wrap32_id drop_bit_eq_div)
  have "zigZagEncode (Fin (of_int k)) = xor32 (2 * k) 0"
    unfolding zigZagEncode_def t s r ..
  then show ?thesis
    using assms by (simp add: xor32_def wrap32_id)
qed

lemma clip_fold:
  "fold (clipStep bbox merc) fs acc =
     acc @ map (\<lambda>feat. \<lparr>properties = Some (case properties feat of None \<Rightarrow> Map.empty | Some m \<Rightarrow> m),
                         coordinates = (case coordinates feat of (lon, lat) \<Rightarrow>
                            projectToTileCoordinates lon lat (Fin 4096) merc)\<rparr>)
             (filter (\<lambda>feat. in_bbox bbox (coordinates feat)) fs)"
  by (induction fs arbitrary: acc)
    (auto simp: clipStep_def in_bbox_def Let_def split: prod.splits)

lemma is_bytes_append [simp]: "is_bytes (xs @ ys) = (is_bytes xs \<and> is_bytes ys)"
  by (auto simp: is_bytes_def)

lemma is_bytes_concat: "(\<And>x. x \<in> set xss \<Longrightarrow> is_bytes x) \<Longrightarrow> is_bytes (concat xss)"
  by (auto simp: is_bytes_def)

lemma is_bytes_pb_varint [simp]: "is_bytes (pb_varint n)"
proof (induction n rule: pb_varint.induct)
  case (1 n)
  show ?case
  proof (cases "n < 128")
    case True
    then show ?thesis by (simp add: pb_varint.simps is_bytes_def)
  next
    case False
    with 1 have "is_bytes (pb_varint (n div 128))" by simp
    moreover have "int (n mod 128) + 128 < 256"
      by (simp add: zmod_int)
    ultimately show ?thesis
      using False by (subst pb_varint.simps) (simp add: is_bytes_def)
  qed
qed

lemma of_char_byte: "0 \<le> (of_char c :: int) \<and> (of_char c :: int) < 256"
proof -
  have "(of_char c :: int) = int (of_char c)"
    by (simp add: of_char_def)
  moreover have "(of_char c :: nat) < 256"
    by (rule nat_of_char_less_256)
  ultimately show ?thesis by simp
qed

lemma is_bytes_utf8 [simp]: "is_bytes (utf8_bytes str)"
  using of_char_byte by (auto simp: is_bytes_def utf8_bytes_def)


lemma is_bytes_pb [simp]:
  "is_bytes (pb_tag f w)" "is_bytes (pb_varint_field f v)"
  "is_bytes (pb_bytes_field f p) = is_bytes p" "is_bytes (pb_packed vs)"
  by (auto simp: pb_tag_def pb_varint_field_def pb_bytes_field_def pb_packed_def intro!: is_bytes_concat)

lemma is_bytes_feature [simp]: "is_bytes (mvt_point_feature g)"
  by (simp add: mvt_point_feature_def)






section \<open>Properties of the tile builder\<close>

lemma filteredFeatures_eq:
  "filteredFeatures geojson z x y = map (projectFeature z x y) (survivors geojson z x y)"
  unfolding filteredFeatures_def Let_def clip_fold survivors_def projectFeature_def by simp

lemma writeVarint_not_Nil: "writeVarint arr v \<noteq> []"
proof (induction arr v rule: writeVarint.induct)
  case (1 arr val)
  then show ?case by (subst writeVarint.simps) simp
qed

lemma encodeLayer_not_Nil: "encodeLayer fs name ext \<noteq> []"
  by (simp add: encodeLayer_def Let_def writeVarint_not_Nil)

lemma generateTilePbf_eq:
  "generateTilePbf geojson z x y =
     (if survivors geojson z x y = [] then []
      else Buffer_from (encodeLayer (map (projectFeature z x y) (survivors geojson z x y)) ''myLayer'' 4096))"
  by (simp add: generateTilePbf_def filteredFeatures_eq Let_def Buffer_from_def)

lemma generateTilePbf_Nil_iff:
  "generateTilePbf geojson z x y = [] \<longleftrightarrow> survivors geojson z x y = []"
  by (simp add: generateTilePbf_eq Buffer_from_def encodeLayer_not_Nil)

lemma in_bbox_tile:
  "in_bbox (tileBbox z x y) (lon, lat) \<longleftrightarrow>
     (\<exists>l t. lon = Fin l \<and> lat = Fin t \<and> lon_of_tile x z \<le> l \<and> l \<le> lon_of_tile (x + 1) z
         \<and> lat_of_tile (y + 1) z \<le> t \<and> t \<le> lat_of_tile y z)"
  by (cases lon; cases lat) (auto simp: in_bbox_def tileBbox_Fin)

subsection \<open>A concrete tile\<close>

text \<open>Tile \<open>(2, 2, 1)\<close> has its west edge at longitude 0 and its south edge at latitude 0.\<close>

lemma lon_of_tile_2: "lon_of_tile 2 2 = 0" "lon_of_tile 3 2 = 90" "lon_of_tile 1 2 = - 90"
  by (simp_all add: lon_of_tile_def)

lemma lat_of_tile_2: "lat_of_tile 2 2 = 0" "0 < lat_of_tile 1 2"
proof -
  show "lat_of_tile 2 2 = 0" by (simp add: lat_of_tile_def)
  show "0 < lat_of_tile 1 2"
    using lat_of_tile_antimono [of 1 2 2] by (simp add: \<open>lat_of_tile 2 2 = 0\<close>)
qed

lemma corner_in_bbox: "in_bbox (tileBbox 2 2 1) (Fin 0, Fin 0)"
  using lat_of_tile_2 by (simp add: in_bbox_tile lon_of_tile_2)



subsection \<open>The empty-tile sentinel\<close>

text \<open>
  \<^bold>\<open>Claim C3\<close>. For every feature collection and tile address, \<open>generateTilePbf\<close> returns the
  zero-length byte sequence if and only if no input feature's \<open>(lon, lat)\<close> passes the
  inclusive containment test against the tile's bbox; so the payload is non-empty as soon
  as one feature survives.
\<close>

theorem generateTilePbf_empty_iff:
  "generateTilePbf geojson z x y = [] \<longleftrightarrow>
     (\<forall>feat \<in> set (features geojson). \<not> in_bbox (tileBbox z x y) (coordinates feat))"
  by (simp add: generateTilePbf_Nil_iff survivors_def filter_empty_conv)

theorem generateTilePbf_empty_iff_witness:
  "in_bbox (tileBbox 2 2 1) (Fin 0, Fin 0) \<and> generateTilePbf corner_point 2 2 1 \<noteq> []"
  using generateTilePbf_empty_iff [of corner_point 2 2 1] corner_in_bbox
  by (simp add: corner_point_def)

subsection \<open>Tile-local coordinates\<close>


text \<open>
  \<^bold>\<open>Claim C5\<close>. For a point inside a valid tile's geographic bbox and a non-negative integer
  \<open>extent\<close>, \<open>projectToTileCoordinates\<close> returns a pair of integers \<open>(xt, yt)\<close> with
  \<open>0 \<le> xt \<le> extent\<close> and \<open>0 \<le> yt \<le> extent\<close>. The bounds are attained: a point on the north
  edge has \<open>yt = 0\<close>, one on the south edge \<open>yt = extent\<close> (the y axis is inverted), one on the
  west edge \<open>xt = 0\<close> and one on the east edge \<open>xt = extent\<close>. Both components are the floor of
  the relative position in the tile's Mercator bbox scaled by \<open>extent\<close>.
\<close>

theorem projectToTileCoordinates_range:
  assumes "valid_tile z x y" and "in_bbox (tileBbox z x y) (lon, lat)"
  shows "\<exists>xt yt.
      projectToTileCoordinates lon lat (Fin (real E)) (tileBboxMeters z x y)
        = (Fin (of_int xt), Fin (of_int yt))
      \<and> 0 \<le> xt \<and> xt \<le> int E \<and> 0 \<le> yt \<and> yt \<le> int E
      \<and> (lat = tile2lat y z \<longrightarrow> yt = 0)
      \<and> (lat = tile2lat (y + 1) z \<longrightarrow> yt = int E)
      \<and> (lon = tile2lon x z \<longrightarrow> xt = 0)
      \<and> (lon = tile2lon (x + 1) z \<longrightarrow> xt = int E)
      \<and> (case (lonLatToMeters lon lat, tileBboxMeters z x y) of
           ((mx, my), (minX, minY, maxX, maxY)) \<Rightarrow>
             Fin (of_int xt) = Math_floor ((mx - minX) / (maxX - minX) * Fin (real E))
           \<and> Fin (of_int yt) = Math_floor ((maxY - my) / (maxY - minY) * Fin (real E)))"
proof -
  from assms(2) obtain l t where lt: "lon = Fin l" "lat = Fin t"
    and x: "lon_of_tile x z \<le> l" "l \<le> lon_of_tile (x + 1) z"
    and y: "lat_of_tile (y + 1) z \<le> t" "t \<le> lat_of_tile y z"
    unfolding in_bbox_tile by blast
  have lo: "- 90 < t" using y(1) lat_of_tile_bounds(1) [of "y + 1" z] by linarith
  have hi: "t < 90" using y(2) lat_of_tile_bounds(2) [of y z] by linarith
  have e: "(0::real) \<le> real E" by simp
  let ?xt = "\<lfloor>x_tile z x (real E) l\<rfloor>" and ?yt = "\<lfloor>y_tile z y (real E) t\<rfloor>"
  have p: "projectToTileCoordinates lon lat (Fin (real E)) (tileBboxMeters z x y)
      = (Fin (of_int ?xt), Fin (of_int ?yt))"
    unfolding lt by (rule project_Fin [OF lo hi])
  have rx: "0 \<le> ?xt" "?xt \<le> int E"
    using x_tile_range [OF x e] by (simp_all add: floor_le_iff)
  have ry: "0 \<le> ?yt" "?yt \<le> int E"
    using y_tile_range [OF y e] by (simp_all add: floor_le_iff)
  have edges: "lat = tile2lat y z \<longrightarrow> ?yt = 0" "lat = tile2lat (y + 1) z \<longrightarrow> ?yt = int E"
    "lon = tile2lon x z \<longrightarrow> ?xt = 0" "lon = tile2lon (x + 1) z \<longrightarrow> ?xt = int E"
    by (simp_all add: lt tile2lat_Fin tile2lon_Fin x_tile_edges y_tile_edges)
  have fl: "case (lonLatToMeters lon lat, tileBboxMeters z x y) of
           ((mx, my), (minX, minY, maxX, maxY)) \<Rightarrow>
             Fin (of_int ?xt) = Math_floor ((mx - minX) / (maxX - minX) * Fin (real E))
           \<and> Fin (of_int ?yt) = Math_floor ((maxY - my) / (maxY - minY) * Fin (real E))"
    using p by (simp add: projectToTileCoordinates_def Let_def split: prod.splits)
  show ?thesis
    by (intro exI [of _ ?xt] exI [of _ ?yt] conjI p rx ry edges fl)
qed

theorem projectToTileCoordinates_range_witness:
  "valid_tile 2 2 1 \<and> in_bbox (tileBbox 2 2 1) (Fin 0, Fin 0)
   \<and> projectToTileCoordinates (Fin 0) (Fin 0) (Fin 4096) (tileBboxMeters 2 2 1) = (Fin 0, Fin 4096)
   \<and> Fin 0 = tile2lat (1 + 1) 2 \<and> Fin 0 = tile2lon 2 2"
proof -
  have c: "Fin 0 = tile2lat (1 + 1) 2" "Fin 0 = tile2lon 2 2"
    by (simp_all add: tile2lat_Fin tile2lon_Fin lat_of_tile_2 lon_of_tile_2)
  have v: "valid_tile 2 2 1" by (simp add: valid_tile_def)
  from projectToTileCoordinates_range [OF v corner_in_bbox, of 4096]
  obtain xt yt where
    p: "projectToTileCoordinates (Fin 0) (Fin 0) (Fin (real 4096)) (tileBboxMeters 2 2 1)
        = (Fin (of_int xt), Fin (of_int yt))"
    and s: "Fin 0 = tile2lat (1 + 1) 2 \<longrightarrow> yt = int 4096"
    and w: "Fin 0 = tile2lon 2 2 \<longrightarrow> xt = 0"
    by blast
  from s w c have "yt = 4096" "xt = 0" by simp_all
  with p have "projectToTileCoordinates (Fin 0) (Fin 0) (Fin 4096) (tileBboxMeters 2 2 1)
      = (Fin 0, Fin 4096)"
    by simp
  with v corner_in_bbox c show ?thesis by simp
qed

subsection \<open>The payload\<close>






lemma zigZagEncode_zigzag:
  assumes "- (2 ^ 30) \<le> k" "k < 2 ^ 30"
  shows "zigZagEncode (Fin (of_int k)) = int (zigzag k)"
proof (cases "0 \<le> k")
  case True
  then show ?thesis
    using assms zigZagEncode_nonneg [of k] by (simp add: zigzag_def)
next
  case False
  then have neg: "k < 0" by simp
  have t: "ToInt32 (Fin (of_int k)) = k"
    using assms neg by (simp add: wrap32_id)
  have "push_bit 1 k = 2 * k" by (simp add: push_bit_eq_mult)
  then have s: "shl32 k 1 = 2 * k"
    using assms neg by (simp add: shl32_def wrap32_id)
  have "k div 2 ^ 31 = - 1"
  proof -
    have "k div 2 ^ 31 = (k + 2 ^ 31 + (- 1) * 2 ^ 31) div 2 ^ 31" by simp
    also have "\<dots> = (- 1) + (k + 2 ^ 31) div 2 ^ 31"
      by (rule div_mult_self1) simp
    also have "(k + 2 ^ 31) div 2 ^ 31 = 0"
      using assms neg by (intro div_pos_pos_trivial) simp_all
    finally show ?thesis by simp
  qed
  then have r: "sar32 k 31 = - 1"
    using assms neg by (simp add: sar32_def wrap32_id drop_bit_eq_div)
  have "zigZagEncode (Fin (of_int k)) = xor32 (2 * k) (- 1)"
    unfolding zigZagEncode_def t s r ..
  also have "\<dots> = (2 * k) XOR (- 1)"
    using assms neg by (simp add: xor32_def wrap32_id)
  also have "\<dots> = NOT (2 * k)" by simp
  also have "\<dots> = - 2 * k - 1" by (simp add: not_int_def)
  finally show ?thesis
    using neg by (simp add: zigzag_def)
qed
















subsection \<open>Properties are not encoded\<close>

lemma encodeFeature_coordinates:
  fixes f :: "'a feature" and f' :: "'b feature"
  shows "coordinates f = coordinates f' \<Longrightarrow> encodeFeature f = encodeFeature f'"
  by (simp add: encodeFeature_def)

lemma encodeLayer_cong:
  fixes fs :: "'a feature list" and fs' :: "'b feature list"
  shows "map encodeFeature fs = map encodeFeature fs' \<Longrightarrow>
    encodeLayer fs name ext = encodeLayer fs' name ext"
  by (simp add: encodeLayer_def fold_push_all Let_def)

lemma encoded_projection:
  fixes fs :: "'a feature list" and fs' :: "'b feature list"
  assumes "map coordinates fs = map coordinates fs'"
  shows "map (\<lambda>f. encodeFeature (projectFeature z x y f)) (filter (\<lambda>f. in_bbox b (coordinates f)) fs)
       = map (\<lambda>f. encodeFeature (projectFeature z x y f)) (filter (\<lambda>f. in_bbox b (coordinates f)) fs')"
  using assms
proof (induction fs arbitrary: fs')
  case Nil
  then show ?case by simp
next
  case (Cons f fs)
  then obtain g gs where fs': "fs' = g # gs" by (cases fs') auto
  with Cons.prems have c: "coordinates f = coordinates g" and r: "map coordinates fs = map coordinates gs"
    by simp_all
  have "encodeFeature (projectFeature z x y f) = encodeFeature (projectFeature z x y g)"
    by (rule encodeFeature_coordinates) (simp add: projectFeature_def c)
  with Cons.IH [OF r] c show ?case
    by (simp add: fs')
qed

text \<open>
  \<^bold>\<open>Claim C9\<close>. Two feature collections that agree feature by feature on the coordinates
  (same length, same order, same \<open>(lon, lat)\<close>) give byte-identical output for every tile
  address, whatever their \<open>properties\<close> are (even of different types).
\<close>

theorem properties_never_encoded:
  fixes g1 :: "'a featureCollection" and g2 :: "'b featureCollection"
  assumes "map coordinates (features g1) = map coordinates (features g2)"
  shows "generateTilePbf g1 z x y = generateTilePbf g2 z x y"
proof -
  have m: "map encodeFeature (map (projectFeature z x y) (survivors g1 z x y))
      = map encodeFeature (map (projectFeature z x y) (survivors g2 z x y))"
    using encoded_projection [OF assms, of z x y "tileBbox z x y"]
    by (simp add: survivors_def comp_def)
  then have "length (survivors g1 z x y) = length (survivors g2 z x y)"
    using map_eq_imp_length_eq by fastforce
  then have e: "survivors g1 z x y = [] \<longleftrightarrow> survivors g2 z x y = []"
    by auto
  show ?thesis
    unfolding generateTilePbf_eq encodeLayer_cong [OF m] e ..
qed

theorem properties_never_encoded_witness:
  "map coordinates (features corner_point) = map coordinates (features named_corner_point)
   \<and> map properties (features corner_point) \<noteq> map properties (features named_corner_point)
   \<and> generateTilePbf corner_point 2 2 1 = generateTilePbf named_corner_point 2 2 1"
proof -
  have c: "map coordinates (features corner_point) = map coordinates (features named_corner_point)"
    by (simp add: corner_point_def named_corner_point_def)
  show ?thesis
    using properties_never_encoded [OF c, of 2 2 1] c
    by (simp add: corner_point_def named_corner_point_def)
qed

subsection \<open>Malformed coordinates\<close>

lemma malformed_outside: "malformed p \<Longrightarrow> \<not> in_bbox (tileBbox z x y) p"
proof (cases p)
  case (Pair lon lat)
  assume "malformed p"
  then show ?thesis
    unfolding Pair in_bbox_tile malformed_def
    using lat_of_tile_bounds [of y z] lat_of_tile_bounds [of "y + 1" z]
    by auto
qed

lemma survivors_drop:
  "\<not> in_bbox (tileBbox z x y) (coordinates feat) \<Longrightarrow>
   survivors \<lparr>features = before @ feat # after\<rparr> z x y = survivors \<lparr>features = before @ after\<rparr> z x y"
  by (simp add: survivors_def)

text \<open>
  \<^bold>\<open>Claim C4\<close> (as amended). \<open>generateTilePbf\<close> has no failure result. A feature whose
  coordinates are malformed (a \<open>NaN\<close> or infinite longitude or latitude, or a latitude at or
  beyond \<open>\<plusminus>90\<close> degrees) fails the bbox test of every valid tile and is dropped: the
  payload is the one the collection without that feature gives.
\<close>

theorem malformed_feature_dropped:
  assumes "valid_tile z x y" and "malformed (coordinates feat)"
  shows "\<not> in_bbox (tileBbox z x y) (coordinates feat)
    \<and> generateTilePbf \<lparr>features = before @ feat # after\<rparr> z x y
        = generateTilePbf \<lparr>features = before @ after\<rparr> z x y"
  using malformed_outside [OF assms(2), of z x y]
  by (simp add: generateTilePbf_eq survivors_drop)

theorem malformed_feature_dropped_witness:
  "valid_tile 2 2 1
   \<and> malformed (coordinates \<lparr>properties = None :: (string \<rightharpoonup> string) option, coordinates = (Fin 0, NaN)\<rparr>)
   \<and> generateTilePbf \<lparr>features = features corner_point
        @ \<lparr>properties = None, coordinates = (Fin 0, NaN)\<rparr> # []\<rparr> 2 2 1
     = generateTilePbf \<lparr>features = features corner_point @ []\<rparr> 2 2 1"
proof -
  have m: "malformed (coordinates \<lparr>properties = None :: (string \<rightharpoonup> string) option, coordinates = (Fin 0, NaN)\<rparr>)"
    by (simp add: malformed_def)
  have v: "valid_tile 2 2 1" by (simp add: valid_tile_def)
  show ?thesis
    using malformed_feature_dropped [OF v m, of "features corner_point" "[]"] v m
    by simp
qed

text \<open>
  The claim as stated, that a malformed coordinate surfaces as a visible failure and is not
  treated like a point outside the tile, fails: for a collection of one feature at latitude
  95, and for one with \<open>NaN\<close> coordinates, the tile builder returns the empty payload, the same
  value it returns for a collection with no features.
\<close>

theorem malformed_feature_counterexample:
  "valid_tile 0 0 0 \<and> malformed (Fin 0, Fin 95) \<and> malformed (NaN, NaN)
   \<and> generateTilePbf \<lparr>features = [\<lparr>properties = None :: (string \<rightharpoonup> string) option,
         coordinates = (Fin 0, Fin 95)\<rparr>]\<rparr> 0 0 0 = []
   \<and> generateTilePbf \<lparr>features = [\<lparr>properties = None :: (string \<rightharpoonup> string) option,
         coordinates = (NaN, NaN)\<rparr>]\<rparr> 0 0 0 = []
   \<and> generateTilePbf \<lparr>features = ([] :: string feature list)\<rparr> 0 0 0 = []"
proof -
  have m: "malformed (Fin 0, Fin 95)" "malformed (NaN, NaN)"
    by (simp_all add: malformed_def)
  then show ?thesis
    by (simp add: generateTilePbf_Nil_iff survivors_def malformed_outside valid_tile_def)
qed

subsection \<open>Points on a shared edge\<close>

text \<open>
  \<^bold>\<open>Claim C6\<close>. For every zoom \<open>z\<close>, every column \<open>x\<close> with \<open>1 \<le> x \<le> 2^z - 1\<close> and every
  feature of the collection whose longitude is exactly \<open>tile2lon(x, z)\<close> and whose latitude is
  inside the latitude span of row \<open>y\<close>, the containment test holds for the tile at \<open>x\<close> and for
  the tile at \<open>x - 1\<close>: the projected feature is in the clipped list of both tiles and both
  payloads are non-empty.
\<close>

theorem shared_edge_point_in_both_tiles:
  assumes "1 \<le> x" and "x \<le> 2 ^ z - 1"
    and "feat \<in> set (features geojson)"
    and "coordinates feat = (tile2lon x z, lat)"
    and "tile2lat (y + 1) z \<le> lat" and "lat \<le> tile2lat y z"
  shows "in_bbox (tileBbox z x y) (coordinates feat)
    \<and> in_bbox (tileBbox z (x - 1) y) (coordinates feat)
    \<and> projectFeature z x y feat \<in> set (filteredFeatures geojson z x y)
    \<and> projectFeature z (x - 1) y feat \<in> set (filteredFeatures geojson z (x - 1) y)
    \<and> generateTilePbf geojson z x y \<noteq> []
    \<and> generateTilePbf geojson z (x - 1) y \<noteq> []"
proof -
  obtain t where t: "lat = Fin t" "lat_of_tile (y + 1) z \<le> t" "t \<le> lat_of_tile y z"
    using between_Fin [of "lat_of_tile (y + 1) z" lat "lat_of_tile y z"] assms(5,6)
    by (auto simp: tile2lat_Fin)
  have "lon_of_tile (x - 1) z \<le> lon_of_tile x z" "lon_of_tile x z \<le> lon_of_tile (x + 1) z"
    using lon_of_tile_mono [of "x - 1" x z] lon_of_tile_mono [of x "x + 1" z] by simp_all
  then have b: "in_bbox (tileBbox z x y) (coordinates feat)"
    "in_bbox (tileBbox z (x - 1) y) (coordinates feat)"
    using t by (simp_all add: assms(4) in_bbox_tile tile2lon_Fin)
  then have s: "feat \<in> set (survivors geojson z x y)" "feat \<in> set (survivors geojson z (x - 1) y)"
    using assms(3) by (simp_all add: survivors_def)
  then have "survivors geojson z x y \<noteq> []" "survivors geojson z (x - 1) y \<noteq> []"
    by auto
  then show ?thesis
    using b s by (simp add: generateTilePbf_Nil_iff filteredFeatures_eq)
qed

theorem shared_edge_point_in_both_tiles_witness:
  "(1::int) \<le> 2 \<and> (2::int) \<le> 2 ^ 2 - 1
   \<and> \<lparr>properties = None, coordinates = (Fin 0, Fin 0)\<rparr> \<in> set (features corner_point)
   \<and> (Fin 0, Fin 0) = (tile2lon 2 2, Fin 0)
   \<and> tile2lat (1 + 1) 2 \<le> Fin 0 \<and> Fin 0 \<le> tile2lat 1 2
   \<and> in_bbox (tileBbox 2 2 1) (Fin 0, Fin 0)
   \<and> in_bbox (tileBbox 2 (2 - 1) 1) (Fin 0, Fin 0)
   \<and> generateTilePbf corner_point 2 2 1 \<noteq> []
   \<and> generateTilePbf corner_point 2 (2 - 1) 1 \<noteq> []"
proof -
  let ?f = "\<lparr>properties = None :: (string \<rightharpoonup> string) option, coordinates = (Fin 0, Fin 0)\<rparr>"
  have h: "(1::int) \<le> 2" "(2::int) \<le> 2 ^ 2 - 1"
    "?f \<in> set (features corner_point)"
    "coordinates ?f = (tile2lon 2 2, Fin 0)"
    "tile2lat (1 + 1) 2 \<le> Fin 0" "Fin 0 \<le> tile2lat 1 2"
    using lat_of_tile_2
    by (simp_all add: corner_point_def tile2lon_Fin tile2lat_Fin lon_of_tile_2)
  show ?thesis
    using shared_edge_point_in_both_tiles [OF h] h by simp
qed

section \<open>The tile range of a bounding box\<close>




lemma sec_tan_pos:
  assumes "- (pi / 2) < r" "r < pi / 2"
  shows "0 < tan r + 1 / cos r" "cos r \<noteq> 0"
proof -
  have c: "0 < cos r" using assms by (rule cos_gt_zero_pi)
  then show "cos r \<noteq> 0" by simp
  have "sin r \<noteq> - 1"
  proof
    assume "sin r = - 1"
    then have "(cos r)\<^sup>2 = 0" using sin_cos_squared_add [of r] by simp
    with c show False by simp
  qed
  moreover have "- 1 \<le> sin r" by simp
  ultimately have "0 < sin r + 1" by linarith
  then have "0 < (sin r + 1) / cos r" using c by simp
  moreover have "tan r + 1 / cos r = (sin r + 1) / cos r"
    by (simp add: tan_def add_divide_distrib)
  ultimately show "0 < tan r + 1 / cos r" by simp
qed

lemma lat2tileY_Fin:
  assumes "- 90 < t" "t < 90"
  shows "lat2tileY (Fin t) z =
     Fin (of_int \<lfloor>(1 - ln (tan (t * pi / 180) + 1 / cos (t * pi / 180)) / pi) / 2 * 2 ^ z\<rfloor>)"
proof -
  have "(- 90) * pi < t * pi" "t * pi < 90 * pi"
    using assms by (simp_all only: mult_less_cancel_right_pos [OF pi_gt_zero])
  then have "- (pi / 2) < t * pi / 180" "t * pi / 180 < pi / 2"
    by simp_all
  from sec_tan_pos [OF this] show ?thesis
    by (simp add: lat2tileY_def Math_PI_def Math_pow_Fin Let_def)
qed








section \<open>The Tokyo test point\<close>

text \<open>Enclosures of \<open>pi\<close>, \<open>sin\<close>, \<open>cos\<close> and \<open>exp\<close> at rational points, from the Maclaurin
  expansions with remainder.\<close>

lemma cos_poly_bound:
  "\<bar>cos x - (\<Sum>m<n. cos_coeff m * x ^ m)\<bar> \<le> \<bar>x\<bar> ^ n / fact n"
proof -
  obtain t where "cos x = (\<Sum>m<n. cos_coeff m * x ^ m) + cos (t + 1 / 2 * real n * pi) / fact n * x ^ n"
    using Maclaurin_cos_expansion [of x n] by blast
  then have "\<bar>cos x - (\<Sum>m<n. cos_coeff m * x ^ m)\<bar> = \<bar>cos (t + 1 / 2 * real n * pi)\<bar> * (\<bar>x\<bar> ^ n / fact n)"
    by (simp add: abs_mult power_abs)
  also have "\<dots> \<le> 1 * (\<bar>x\<bar> ^ n / fact n)"
    by (intro mult_right_mono) simp_all
  finally show ?thesis by simp
qed

lemma sin_poly_bound:
  "\<bar>sin x - (\<Sum>m<n. sin_coeff m * x ^ m)\<bar> \<le> \<bar>x\<bar> ^ n / fact n"
  using Maclaurin_sin_bound [of x n] by (simp add: divide_inverse mult.commute)

lemma cos_15707: "0 < cos (15707 / 10000 :: real)"
proof -
  let ?x = "15707 / 10000 :: real"
  have "\<bar>cos ?x - (\<Sum>m<12. cos_coeff m * ?x ^ m)\<bar> \<le> \<bar>?x\<bar> ^ 12 / fact 12"
    by (rule cos_poly_bound)
  then have "(\<Sum>m<12. cos_coeff m * ?x ^ m) - \<bar>?x\<bar> ^ 12 / fact 12 \<le> cos ?x"
    by linarith
  moreover have "0 < (\<Sum>m<12. cos_coeff m * ?x ^ m) - \<bar>?x\<bar> ^ 12 / fact 12"
    by (simp add: lessThan_nat_numeral sum.lessThan_Suc cos_coeff_def fact_numeral power_divide)
  ultimately show ?thesis by linarith
qed

lemma cos_15709: "cos (15709 / 10000 :: real) < 0"
proof -
  let ?x = "15709 / 10000 :: real"
  have "\<bar>cos ?x - (\<Sum>m<12. cos_coeff m * ?x ^ m)\<bar> \<le> \<bar>?x\<bar> ^ 12 / fact 12"
    by (rule cos_poly_bound)
  then have "cos ?x \<le> (\<Sum>m<12. cos_coeff m * ?x ^ m) + \<bar>?x\<bar> ^ 12 / fact 12"
    by linarith
  moreover have "(\<Sum>m<12. cos_coeff m * ?x ^ m) + \<bar>?x\<bar> ^ 12 / fact 12 < 0"
    by (simp add: lessThan_nat_numeral sum.lessThan_Suc cos_coeff_def fact_numeral power_divide)
  ultimately show ?thesis by linarith
qed

lemma pi_bounds: "31414 / 10000 < pi" "pi < 31418 / 10000"
proof -
  have "15707 / 10000 < pi / 2"
  proof (rule ccontr)
    assume "\<not> 15707 / 10000 < pi / 2"
    then have "pi / 2 \<le> 15707 / 10000" by simp
    moreover have "(15707 / 10000 :: real) \<le> pi" using pi_ge_two by simp
    moreover have "0 \<le> pi / 2" by simp
    ultimately have "cos (15707 / 10000) \<le> cos (pi / 2)"
      by (intro cos_monotone_0_pi_le)
    with cos_15707 show False by simp
  qed
  then show "31414 / 10000 < pi" by simp
  have "pi / 2 < 15709 / 10000"
  proof (rule ccontr)
    assume "\<not> pi / 2 < 15709 / 10000"
    then have "15709 / 10000 \<le> pi / 2" by simp
    moreover have "pi / 2 \<le> pi" by simp
    ultimately have "cos (pi / 2) \<le> cos (15709 / 10000)"
      by (intro cos_monotone_0_pi_le) simp_all
    with cos_15709 show False by simp
  qed
  then show "pi < 31418 / 10000" by simp
qed

lemma sin_cos_6227:
  "5832 / 10000 < sin (6227 / 10000 :: real)" "cos (6227 / 10000 :: real) < 8124 / 10000"
proof -
  let ?x = "6227 / 10000 :: real"
  have "\<bar>sin ?x - (\<Sum>m<8. sin_coeff m * ?x ^ m)\<bar> \<le> \<bar>?x\<bar> ^ 8 / fact 8"
    by (rule sin_poly_bound)
  then have "(\<Sum>m<8. sin_coeff m * ?x ^ m) - \<bar>?x\<bar> ^ 8 / fact 8 \<le> sin ?x"
    by linarith
  moreover have "5832 / 10000 < (\<Sum>m<8. sin_coeff m * ?x ^ m) - \<bar>?x\<bar> ^ 8 / fact 8"
    by (simp add: lessThan_nat_numeral sum.lessThan_Suc sin_coeff_def fact_numeral power_divide)
  ultimately show "5832 / 10000 < sin ?x" by linarith
  have "\<bar>cos ?x - (\<Sum>m<8. cos_coeff m * ?x ^ m)\<bar> \<le> \<bar>?x\<bar> ^ 8 / fact 8"
    by (rule cos_poly_bound)
  then have "cos ?x \<le> (\<Sum>m<8. cos_coeff m * ?x ^ m) + \<bar>?x\<bar> ^ 8 / fact 8"
    by linarith
  moreover have "(\<Sum>m<8. cos_coeff m * ?x ^ m) + \<bar>?x\<bar> ^ 8 / fact 8 < 8124 / 10000"
    by (simp add: lessThan_nat_numeral sum.lessThan_Suc cos_coeff_def fact_numeral power_divide)
  ultimately show "cos ?x < 8124 / 10000" by linarith
qed

lemma sin_cos_6228:
  "sin (6228 / 10000 :: real) < 5834 / 10000" "8122 / 10000 < cos (6228 / 10000 :: real)"
proof -
  let ?x = "6228 / 10000 :: real"
  have "\<bar>sin ?x - (\<Sum>m<8. sin_coeff m * ?x ^ m)\<bar> \<le> \<bar>?x\<bar> ^ 8 / fact 8"
    by (rule sin_poly_bound)
  then have "sin ?x \<le> (\<Sum>m<8. sin_coeff m * ?x ^ m) + \<bar>?x\<bar> ^ 8 / fact 8"
    by linarith
  moreover have "(\<Sum>m<8. sin_coeff m * ?x ^ m) + \<bar>?x\<bar> ^ 8 / fact 8 < 5834 / 10000"
    by (simp add: lessThan_nat_numeral sum.lessThan_Suc sin_coeff_def fact_numeral power_divide)
  ultimately show "sin ?x < 5834 / 10000" by linarith
  have "\<bar>cos ?x - (\<Sum>m<8. cos_coeff m * ?x ^ m)\<bar> \<le> \<bar>?x\<bar> ^ 8 / fact 8"
    by (rule cos_poly_bound)
  then have "(\<Sum>m<8. cos_coeff m * ?x ^ m) - \<bar>?x\<bar> ^ 8 / fact 8 \<le> cos ?x"
    by linarith
  moreover have "8122 / 10000 < (\<Sum>m<8. cos_coeff m * ?x ^ m) - \<bar>?x\<bar> ^ 8 / fact 8"
    by (simp add: lessThan_nat_numeral sum.lessThan_Suc cos_coeff_def fact_numeral power_divide)
  ultimately show "8122 / 10000 < cos ?x" by linarith
qed

lemma exp_poly_bounds:
  fixes x :: real
  assumes "0 \<le> x" "x \<le> 1"
  shows "(\<Sum>m<n. x ^ m / fact m) \<le> exp x" "exp x \<le> (\<Sum>m<n. x ^ m / fact m) + 3 * x ^ n / fact n"
proof -
  obtain t where t: "\<bar>t\<bar> \<le> \<bar>x\<bar>" "exp x = (\<Sum>m<n. x ^ m / fact m) + exp t / fact n * x ^ n"
    using Maclaurin_exp_le [of x n] by blast
  have "0 \<le> exp t / fact n * x ^ n"
    using assms(1) by simp
  with t(2) show "(\<Sum>m<n. x ^ m / fact m) \<le> exp x" by linarith
  have "t \<le> 1" using t(1) assms by linarith
  then have "exp t \<le> exp 1" by simp
  also have "\<dots> \<le> 3" by (rule exp_le)
  finally have "exp t / fact n * x ^ n \<le> 3 / fact n * x ^ n"
    using assms(1) by (intro mult_right_mono divide_right_mono) simp_all
  with t(2) show "exp x \<le> (\<Sum>m<n. x ^ m / fact m) + 3 * x ^ n / fact n"
    by simp
qed

lemma tokyo_rad:
  "6227 / 10000 < 35.681 * pi / 180" "35.681 * pi / 180 < 6228 / 10000"
  using pi_bounds by simp_all

lemma tokyo_sin_cos:
  "5832 / 10000 < sin (35.681 * pi / 180)" "sin (35.681 * pi / 180) < 5834 / 10000"
  "8122 / 10000 < cos (35.681 * pi / 180)" "cos (35.681 * pi / 180) < 8124 / 10000"
proof -
  let ?r = "35.681 * pi / 180 :: real"
  have h: "(6228 / 10000 :: real) \<le> pi / 2" using pi_ge_two by simp
  have lo: "6227 / 10000 \<le> ?r" and hi: "?r \<le> 6228 / 10000"
    using tokyo_rad by simp_all
  have "sin (6227 / 10000) \<le> sin ?r"
    using lo hi h by (intro sin_monotone_2pi_le) simp_all
  with sin_cos_6227(1) show "5832 / 10000 < sin ?r" by linarith
  have "sin ?r \<le> sin (6228 / 10000)"
    using lo hi h by (intro sin_monotone_2pi_le) simp_all
  with sin_cos_6228(1) show "sin ?r < 5834 / 10000" by linarith
  have "cos (6228 / 10000) \<le> cos ?r"
    using lo hi h by (intro cos_monotone_0_pi_le) simp_all
  with sin_cos_6228(2) show "8122 / 10000 < cos ?r" by linarith
  have "cos ?r \<le> cos (6227 / 10000)"
    using lo hi h by (intro cos_monotone_0_pi_le) simp_all
  with sin_cos_6227(2) show "cos ?r < 8124 / 10000" by linarith
qed

lemma tokyo_sec_tan:
  "19487 / 10000 < tan (35.681 * pi / 180) + 1 / cos (35.681 * pi / 180)"
  "tan (35.681 * pi / 180) + 1 / cos (35.681 * pi / 180) < 19496 / 10000"
proof -
  let ?r = "35.681 * pi / 180 :: real"
  have c: "0 < cos ?r" using tokyo_sin_cos(3) by linarith
  have e: "tan ?r + 1 / cos ?r = (sin ?r + 1) / cos ?r"
    by (simp add: tan_def add_divide_distrib)
  have "19487 / 10000 * cos ?r < 19487 / 10000 * (8124 / 10000)"
    using tokyo_sin_cos(4) by simp
  also have "\<dots> < sin ?r + 1" using tokyo_sin_cos(1) by simp
  finally show "19487 / 10000 < tan ?r + 1 / cos ?r"
    unfolding e using c by (simp add: pos_less_divide_eq)
  have "sin ?r + 1 < 19496 / 10000 * (8122 / 10000)" using tokyo_sin_cos(2) by simp
  also have "\<dots> < 19496 / 10000 * cos ?r"
    using tokyo_sin_cos(3) by simp
  finally show "tan ?r + 1 / cos ?r < 19496 / 10000"
    unfolding e using c by (simp add: pos_divide_less_eq)
qed

lemma tokyo_exp:
  "exp (108 / 512 * pi) < 19487 / 10000" "19496 / 10000 < exp (109 / 512 * pi)"
proof -
  let ?a = "3393144 / 5120000 :: real" and ?b = "3424126 / 5120000 :: real"
  have "108 / 512 * pi < ?a" using pi_bounds(2) by simp
  then have "exp (108 / 512 * pi) < exp ?a" by simp
  also have "exp ?a \<le> (\<Sum>m<7. ?a ^ m / fact m) + 3 * ?a ^ 7 / fact 7"
    by (rule exp_poly_bounds) simp_all
  also have "\<dots> < 19487 / 10000"
    by (simp add: lessThan_nat_numeral sum.lessThan_Suc fact_numeral power_divide)
  finally show "exp (108 / 512 * pi) < 19487 / 10000" .
  have "19496 / 10000 < (\<Sum>m<7. ?b ^ m / fact m)"
    by (simp add: lessThan_nat_numeral sum.lessThan_Suc fact_numeral power_divide)
  also have "\<dots> \<le> exp ?b"
    by (rule exp_poly_bounds) simp_all
  also have "?b < 109 / 512 * pi" using pi_bounds(1) by simp
  then have "exp ?b < exp (109 / 512 * pi)" by simp
  finally show "19496 / 10000 < exp (109 / 512 * pi)" .
qed

lemma tokyo_ln:
  "108 / 512 * pi < ln (tan (35.681 * pi / 180) + 1 / cos (35.681 * pi / 180))"
  "ln (tan (35.681 * pi / 180) + 1 / cos (35.681 * pi / 180)) < 109 / 512 * pi"
proof -
  let ?s = "tan (35.681 * pi / 180) + 1 / cos (35.681 * pi / 180) :: real"
  have p: "0 < ?s" using tokyo_sec_tan(1) by linarith
  have "exp (108 / 512 * pi) < ?s" using tokyo_exp(1) tokyo_sec_tan(1) by linarith
  then have "ln (exp (108 / 512 * pi)) < ln ?s"
    using p by (subst ln_less_cancel_iff) simp_all
  then show "108 / 512 * pi < ln ?s" by simp
  have "?s < exp (109 / 512 * pi)" using tokyo_exp(2) tokyo_sec_tan(2) by linarith
  then have "ln ?s < ln (exp (109 / 512 * pi))"
    using p by (subst ln_less_cancel_iff) simp_all
  then show "ln ?s < 109 / 512 * pi" by simp
qed

lemma tokyo_row:
  "\<lfloor>(1 - ln (tan (35.681 * pi / 180) + 1 / cos (35.681 * pi / 180)) / pi) / 2 * 2 ^ 10\<rfloor> = (403 :: int)"
proof -
  define q where "q = ln (tan (35.681 * pi / 180) + 1 / cos (35.681 * pi / 180)) / pi"
  have "108 / 512 * pi < q * pi" "q * pi < 109 / 512 * pi"
    using tokyo_ln by (simp_all add: q_def)
  then have q: "108 / 512 < q" "q < 109 / 512"
    by (simp_all only: mult_less_cancel_right_pos [OF pi_gt_zero])
  have e: "(1 - q) / 2 * 2 ^ 10 = 512 - 512 * q" by simp
  have "\<lfloor>(1 - q) / 2 * 2 ^ 10\<rfloor> = (403 :: int)"
    unfolding e using q by (intro floor_unique) simp_all
  then show ?thesis by (simp only: q_def)
qed

text \<open>
  \<^bold>\<open>Claim C8\<close>. \<open>long2tileX(139.767, 10)\<close> is 909 and \<open>lat2tileY(35.681, 10)\<close> is 403. Both
  are values of functions of the inputs alone, so they are the same at every call. In exact
  arithmetic the two quantities that are floored are about 909.56 and 403.23.
\<close>

theorem tokyo_tile_indices:
  "long2tileX (Fin 139.767) 10 = Fin 909 \<and> lat2tileY (Fin 35.681) 10 = Fin 403"
proof -
  have "\<lfloor>(139.767 + 180) / 360 * (2 :: real) ^ 10\<rfloor> = 909"
    by (intro floor_unique) simp_all
  then have "long2tileX (Fin 139.767) 10 = Fin 909"
    by (simp add: long2tileX_def Math_pow_Fin)
  moreover have "lat2tileY (Fin 35.681) 10 = Fin 403"
    using tokyo_row by (simp add: lat2tileY_Fin)
  ultimately show ?thesis by simp
qed

end
